theory Spec2Isabelle
  imports Main "HOL-Library.Sublist"
begin

section \<open>Python values used by \<^verbatim>\<open>bot.py\<close>\<close>

text \<open>
  A Python \<^verbatim>\<open>str\<close> is a \<^typ>\<open>string\<close>; an \<^verbatim>\<open>Optional[str]\<close> is a
  \<^typ>\<open>string option\<close>. Python's \<^verbatim>\<open>int\<close> is unbounded, so identifiers are
  \<^typ>\<open>int\<close>. The truth value of an optional string in a condition
  (\<^verbatim>\<open>if p\<close>, \<^verbatim>\<open>not ext\<close>, \<^verbatim>\<open>a or b\<close>) is false for \<^verbatim>\<open>None\<close> and for the
  empty string.

  The code looks into a string only at the ASCII dot (\<^verbatim>\<open>in\<close>, \<^verbatim>\<open>rsplit\<close>,
  \<^verbatim>\<open>strip\<close>) and through \<^verbatim>\<open>str.lower()\<close>. \<^verbatim>\<open>str.lower()\<close> is Python's lowercasing
  of all of Unicode and is not spelled out here: \<open>file_basename\<close> takes it as its first
  argument \<open>lower\<close>, the handler takes it among its collaborators, and the theorems hold
  for every such function. The one fact about \<^verbatim>\<open>str.lower()\<close> that theorems assume,
  where they say so, is that it returns the empty string for the empty string and for no
  other.
\<close>

definition truthy :: "string option \<Rightarrow> bool" where
  "truthy s = (case s of None \<Rightarrow> False | Some x \<Rightarrow> x \<noteq> [])"

text \<open>
  What \<^verbatim>\<open>str.lower()\<close> does on ASCII text, for the examples, whose text is ASCII: the
  letters A to Z (codes 65 to 90) move to a to z, every other character is kept.
\<close>

definition ascii_lower_char :: "char \<Rightarrow> char" where
  "ascii_lower_char c =
     (let n = (of_char c :: nat) in if 65 \<le> n \<and> n \<le> 90 then char_of (n + 32) else c)"

definition ascii_lower :: "string \<Rightarrow> string" where
  "ascii_lower s = map ascii_lower_char s"

text \<open>
  \<^verbatim>\<open>s.rsplit(sep, 1)\<close> for a one-character separator: the string itself when the
  separator does not occur, otherwise the part before the last separator and the part
  after it. \<^verbatim>\<open>[-1]\<close> on its result is \<^const>\<open>last\<close>; the result is never empty.
\<close>

definition rsplit1 :: "char \<Rightarrow> string \<Rightarrow> string list" where
  "rsplit1 sep s =
     (if sep \<in> set s
      then [rev (tl (dropWhile (\<lambda>c. c \<noteq> sep) (rev s))), rev (takeWhile (\<lambda>c. c \<noteq> sep) (rev s))]
      else [s])"

text \<open>\<^verbatim>\<open>s.strip(ch)\<close> for a one-character set: removes \<^verbatim>\<open>ch\<close> at both ends.\<close>

definition strip :: "char \<Rightarrow> string \<Rightarrow> string" where
  "strip ch s = rev (dropWhile (\<lambda>c. c = ch) (rev (dropWhile (\<lambda>c. c = ch) s)))"

text \<open>\<^verbatim>\<open>sep.join(parts)\<close>.\<close>

fun join :: "string \<Rightarrow> string list \<Rightarrow> string" where
  "join sep [] = []"
| "join sep [p] = p"
| "join sep (p # q # ps) = p @ sep @ join sep (q # ps)"

text \<open>The decimal text of an integer, as an f-string field \<^verbatim>\<open>{chat_id}\<close> prints it.\<close>

fun str_nat :: "nat \<Rightarrow> string" where
  "str_nat n =
     (if n < 10 then [''0123456789'' ! n]
      else str_nat (n div 10) @ [''0123456789'' ! (n mod 10)])"

declare str_nat.simps [simp del]

definition str_int :: "int \<Rightarrow> string" where
  "str_int i = (if i < 0 then CHR ''-'' # str_nat (nat (- i)) else str_nat (nat i))"

section \<open>Helpers\<close>

text \<open>
  \<^verbatim>\<open>safe_full_name(first, last)\<close>: the list comprehension keeps the truthy members of
  \<^verbatim>\<open>[first, last]\<close> in order, and they are joined with one space.
\<close>

definition safe_full_name :: "string option \<Rightarrow> string option \<Rightarrow> string" where
  "safe_full_name first last' =
     (let parts = map the (filter truthy [first, last'])
      in join '' '' parts)"

text \<open>
  The platform's \<^verbatim>\<open>File\<close> handle, with the two attributes \<^verbatim>\<open>file_basename\<close> reads.
\<close>

record File =
  file_path :: "string option"
  file_unique_id :: string

text \<open>
  The value of the local variable \<^verbatim>\<open>ext\<close> of \<^verbatim>\<open>file_basename\<close> when line 87 is
  reached: \<^verbatim>\<open>None\<close> at first, the lowercased last piece of the remote path when the
  path is truthy and has a dot, and after that, if \<^verbatim>\<open>ext\<close> is still falsy and the
  explicit extension is truthy, the explicit extension stripped of dots and lowercased.
\<close>

definition file_basename_ext ::
    "(string \<Rightarrow> string) \<Rightarrow> File \<Rightarrow> string option \<Rightarrow> string option" where
  "file_basename_ext lower tg_file explicit_ext =
     (let ext = None;
          ext = (case file_path tg_file of
                   None \<Rightarrow> ext
                 | Some p \<Rightarrow>
                     if p \<noteq> [] \<and> CHR ''.'' \<in> set p
                     then Some (lower (last (rsplit1 CHR ''.'' p)))
                     else ext);
          ext = (case explicit_ext of
                   None \<Rightarrow> ext
                 | Some x \<Rightarrow>
                     if \<not> truthy ext \<and> x \<noteq> []
                     then Some (lower (strip CHR ''.'' x))
                     else ext)
      in ext)"

text \<open>
  \<^verbatim>\<open>file_basename(chat_id, message_id, tg_file, explicit_ext)\<close>: the suffix is a dot and
  \<^verbatim>\<open>ext\<close> when \<^verbatim>\<open>ext\<close> is truthy, and empty otherwise.
\<close>

definition file_basename ::
    "(string \<Rightarrow> string) \<Rightarrow> int \<Rightarrow> int \<Rightarrow> File \<Rightarrow> string option \<Rightarrow> string" where
  "file_basename lower chat_id message_id tg_file explicit_ext =
     (let ext = file_basename_ext lower tg_file explicit_ext;
          suffix = (case ext of
                      None \<Rightarrow> []
                    | Some x \<Rightarrow> if x \<noteq> [] then ''.'' @ x else [])
      in str_int chat_id @ ''_'' @ str_int message_id @ ''_'' @ file_unique_id tg_file @ suffix)"

section \<open>Data model\<close>

text \<open>
  The rows of the two tables, with the columns the handler fills in. The primary key
  \<^verbatim>\<open>id\<close> is assigned by the store and is not written by the handler. The column
  \<^verbatim>\<open>text\<close> is \<open>text_col\<close> here; the columns \<^verbatim>\<open>message_id\<close>, \<^verbatim>\<open>chat_id\<close> and
  \<^verbatim>\<open>file_path\<close> of \<^verbatim>\<open>Media\<close> carry the prefix \<open>media_\<close>. A \<^verbatim>\<open>datetime\<close> is
  an integer time stamp.
\<close>

record Message =
  chat_id :: int
  user_id :: "int option"
  username :: "string option"
  full_name :: string
  text_col :: "string option"
  date :: int
  message_id :: int
  reply_to_message_id :: "int option"
  chat_type :: string
  is_group :: bool

record Media =
  media_message_id :: int
  media_chat_id :: int
  media_type :: string
  file_name :: string
  media_file_path :: string

section \<open>The inbound event\<close>

text \<open>
  The platform's objects, with the attributes the handler reads: \<^verbatim>\<open>chat.id\<close> and
  \<^verbatim>\<open>chat.type\<close>; \<^verbatim>\<open>user.id\<close>, \<^verbatim>\<open>user.username\<close>, \<^verbatim>\<open>user.first_name\<close>,
  \<^verbatim>\<open>user.last_name\<close>; an attachment descriptor (a photo size, a video, a document,
  ...) with the \<^verbatim>\<open>file_id\<close> that its \<^verbatim>\<open>get_file()\<close> resolves. \<^verbatim>\<open>msg.photo\<close> is the
  ordered sequence of photo sizes, empty when the message has no photo; the other
  attachment attributes are \<^verbatim>\<open>None\<close> when absent. Of \<^verbatim>\<open>msg.reply_to_message\<close> the
  handler reads the \<^verbatim>\<open>message_id\<close> only, which is what \<open>m_reply_to_message\<close> holds.
\<close>

record Chat =
  c_id :: int
  c_type :: string

record User =
  u_id :: int
  u_username :: "string option"
  u_first_name :: string
  u_last_name :: "string option"

record Attachment =
  file_id :: string

record TgMessage =
  m_chat :: Chat
  m_from_user :: "User option"
  m_text :: "string option"
  m_caption :: "string option"
  m_date :: int
  m_message_id :: int
  m_reply_to_message :: "int option"
  m_photo :: "Attachment list"
  m_video :: "Attachment option"
  m_document :: "Attachment option"
  m_voice :: "Attachment option"
  m_audio :: "Attachment option"
  m_animation :: "Attachment option"
  m_sticker :: "Attachment option"

record Update =
  effective_message :: "TgMessage option"

section \<open>Effects\<close>

text \<open>
  What a call can raise, with its text \<^verbatim>\<open>str(e)\<close>. \<open>Exception s\<close> is an instance of
  Python's \<^verbatim>\<open>Exception\<close>, the class the handler's \<^verbatim>\<open>except\<close> clause names: a network
  error of the platform, an error of the store, an error of the file system.
  \<open>BaseExceptionOnly s\<close> is an instance of \<^verbatim>\<open>BaseException\<close> that is not an
  \<^verbatim>\<open>Exception\<close>: \<^verbatim>\<open>asyncio.CancelledError\<close> raised at an \<^verbatim>\<open>await\<close> when the task is
  cancelled, \<^verbatim>\<open>KeyboardInterrupt\<close>, \<^verbatim>\<open>SystemExit\<close>. A call that can raise returns
  \<open>exn + 'a\<close>, or \<open>exn option\<close> when it returns nothing.
\<close>

datatype exn = Exception (exn_str: string) | BaseExceptionOnly (exn_str: string)

text \<open>\<^verbatim>\<open>isinstance(e, Exception)\<close>.\<close>

fun is_Exception :: "exn \<Rightarrow> bool" where
  "is_Exception (Exception s) = True"
| "is_Exception (BaseExceptionOnly s) = False"

text \<open>
  The collaborators, whose behaviour during one event is a parameter:
  \<^item> \<open>str_lower\<close> is \<^verbatim>\<open>str.lower()\<close>;
  \<^item> \<open>media_path fname\<close> is \<^verbatim>\<open>str(MEDIA_BACKUP_DIR / fname)\<close>;
  \<^item> \<open>get_file a\<close> is \<^verbatim>\<open>await a.get_file()\<close>: a file handle, or an exception;
  \<^item> \<open>download_to_drive f path\<close> is \<^verbatim>\<open>await f.download_to_drive(custom_path=path)\<close>;
  \<^item> \<open>db_flush\<close> and \<open>db_commit\<close> are \<^verbatim>\<open>db.flush()\<close> and \<^verbatim>\<open>db.commit()\<close> on the
    objects added to the session so far; either may raise.
\<close>

datatype row = MessageRow Message | MediaRow Media

record env =
  str_lower :: "string \<Rightarrow> string"
  media_path :: "string \<Rightarrow> string"
  get_file :: "Attachment \<Rightarrow> exn + File"
  download_to_drive :: "File \<Rightarrow> string \<Rightarrow> exn option"
  db_flush :: "row list \<Rightarrow> exn option"
  db_commit :: "row list \<Rightarrow> exn option"

text \<open>
  What the handler can change: the committed rows of the two tables, the requests made
  to the platform (each \<^verbatim>\<open>get_file\<close> and each \<^verbatim>\<open>download_to_drive\<close> call, in order,
  whatever its outcome), and the log.
\<close>

record world =
  messages :: "Message list"
  media :: "Media list"
  get_file_calls :: "Attachment list"
  download_calls :: "(File \<times> string) list"
  log :: "string list"

section \<open>Handler\<close>

text \<open>Lines 101 to 127: the metadata and the \<^verbatim>\<open>Message\<close> object built from it.\<close>

definition new_Message :: "TgMessage \<Rightarrow> Message" where
  "new_Message msg =
     (let chat = m_chat msg;
          user = m_from_user msg
      in \<lparr>chat_id = c_id chat,
          user_id = (case user of Some u \<Rightarrow> Some (u_id u) | None \<Rightarrow> None),
          username = (case user of Some u \<Rightarrow> u_username u | None \<Rightarrow> None),
          full_name = safe_full_name
             (case user of Some u \<Rightarrow> Some (u_first_name u) | None \<Rightarrow> None)
             (case user of Some u \<Rightarrow> u_last_name u | None \<Rightarrow> None),
          text_col = (if truthy (m_text msg) then m_text msg else m_caption msg),
          date = m_date msg,
          message_id = m_message_id msg,
          reply_to_message_id = m_reply_to_message msg,
          chat_type = c_type chat,
          is_group = (c_type chat \<in> set [''group'', ''supergroup''])\<rparr>)"

text \<open>
  One branch of the detection chain: \<^verbatim>\<open>tg_file = await a.get_file()\<close> and then
  \<^verbatim>\<open>media_type = kind\<close>. The request is made, and an exception of \<^verbatim>\<open>get_file\<close>
  leaves the chain.
\<close>

definition resolve :: "env \<Rightarrow> Attachment \<Rightarrow> string \<Rightarrow> world \<Rightarrow>
    (exn + File option \<times> string option) \<times> world" where
  "resolve env a kind w =
     (let w' = w\<lparr>get_file_calls := get_file_calls w @ [a]\<rparr>
      in case get_file env a of
           Inl e \<Rightarrow> (Inl e, w')
         | Inr f \<Rightarrow> (Inr (Some f, Some kind), w'))"

text \<open>
  Lines 132 to 156: \<^verbatim>\<open>tg_file\<close> and \<^verbatim>\<open>media_type\<close> start as \<^verbatim>\<open>None\<close>; the
  \<^verbatim>\<open>if\<close>/\<^verbatim>\<open>elif\<close> chain takes the first attribute that is truthy. \<^verbatim>\<open>msg.photo[-1]\<close>
  is read only when \<^verbatim>\<open>msg.photo\<close> is not empty.
\<close>

definition media_detection :: "env \<Rightarrow> TgMessage \<Rightarrow> world \<Rightarrow>
    (exn + File option \<times> string option) \<times> world" where
  "media_detection env msg w =
     (if m_photo msg \<noteq> [] then resolve env (last (m_photo msg)) ''photo'' w
      else case m_video msg of Some a \<Rightarrow> resolve env a ''video'' w | None \<Rightarrow>
      (case m_document msg of Some a \<Rightarrow> resolve env a ''document'' w | None \<Rightarrow>
      (case m_voice msg of Some a \<Rightarrow> resolve env a ''voice'' w | None \<Rightarrow>
      (case m_audio msg of Some a \<Rightarrow> resolve env a ''audio'' w | None \<Rightarrow>
      (case m_animation msg of Some a \<Rightarrow> resolve env a ''animation'' w | None \<Rightarrow>
      (case m_sticker msg of Some a \<Rightarrow> resolve env a ''sticker'' w | None \<Rightarrow>
       (Inr (None, None), w)))))))"

text \<open>
  Lines 158 to 171: when a file handle and a media type were found, the file name is
  built (no explicit extension is passed), the transfer is requested, and the
  \<^verbatim>\<open>Media\<close> object is built. The result is the object to add to the session, if any.
\<close>

definition download_media :: "env \<Rightarrow> TgMessage \<Rightarrow> File option \<times> string option \<Rightarrow> world \<Rightarrow>
    (exn + Media option) \<times> world" where
  "download_media env msg found w =
     (case found of
        (Some tg_file, Some mtype) \<Rightarrow>
          if mtype \<noteq> [] then
            (let fname = file_basename (str_lower env) (c_id (m_chat msg)) (m_message_id msg)
                           tg_file None;
                 dest_path = media_path env fname;
                 w' = w\<lparr>download_calls := download_calls w @ [(tg_file, dest_path)]\<rparr>
             in case download_to_drive env tg_file dest_path of
                  Some e \<Rightarrow> (Inl e, w')
                | None \<Rightarrow>
                    (Inr (Some \<lparr>media_message_id = m_message_id msg,
                                media_chat_id = c_id (m_chat msg),
                                media_type = mtype,
                                file_name = fname,
                                media_file_path = dest_path\<rparr>), w'))
          else (Inr None, w)
      | _ \<Rightarrow> (Inr None, w))"

text \<open>\<^verbatim>\<open>db.commit()\<close> that succeeds: the session's objects become rows of their tables.\<close>

definition commit_rows :: "row list \<Rightarrow> world \<Rightarrow> world" where
  "commit_rows db w =
     w\<lparr>messages := messages w @ [m. MessageRow m \<leftarrow> db],
       media := media w @ [m. MediaRow m \<leftarrow> db]\<rparr>"

text \<open>
  Lines 115 to 173, the \<^verbatim>\<open>with SessionLocal() as db\<close> block. The session \<open>db\<close> is the
  list of objects added and not yet committed; \<^verbatim>\<open>db.flush()\<close> sends them to the store
  inside the open transaction and commits nothing. An exception leaves the block; the
  session is closed on the way out, which rolls the open transaction back, and its
  objects are dropped with it, so every \<open>Inl\<close> branch returns the world without them.
\<close>

definition with_session :: "env \<Rightarrow> TgMessage \<Rightarrow> world \<Rightarrow> (exn + unit) \<times> world" where
  "with_session env msg w =
     (let db_msg = new_Message msg;
          db = [MessageRow db_msg]
      in case db_flush env db of
           Some e \<Rightarrow> (Inl e, w)
         | None \<Rightarrow>
            (case media_detection env msg w of
               (Inl e, w1) \<Rightarrow> (Inl e, w1)
             | (Inr found, w1) \<Rightarrow>
                (case download_media env msg found w1 of
                   (Inl e, w2) \<Rightarrow> (Inl e, w2)
                 | (Inr db_media, w2) \<Rightarrow>
                    (let db = db @ (case db_media of None \<Rightarrow> [] | Some m \<Rightarrow> [MediaRow m])
                     in case db_commit env db of
                          Some e \<Rightarrow> (Inl e, w2)
                        | None \<Rightarrow> (Inr (), commit_rows db w2)))))"

text \<open>Lines 97 to 173, the body of the \<^verbatim>\<open>try\<close>.\<close>

definition backup_try :: "env \<Rightarrow> Update \<Rightarrow> world \<Rightarrow> (exn + unit) \<times> world" where
  "backup_try env update w =
     (case effective_message update of
        None \<Rightarrow> (Inr (), w)
      | Some msg \<Rightarrow> with_session env msg w)"

text \<open>
  \<^verbatim>\<open>backup_message(update, context)\<close>: the \<^verbatim>\<open>try\<close> with its
  \<^verbatim>\<open>except Exception as e\<close>, which logs and returns when \<open>e\<close> is an instance of
  \<^verbatim>\<open>Exception\<close>, and does not catch anything else. The result says how the call ended:
  \<open>Inr ()\<close> is a normal return, \<open>Inl e\<close> an exception leaving the handler.
\<close>

definition backup_message :: "env \<Rightarrow> Update \<Rightarrow> world \<Rightarrow> (exn + unit) \<times> world" where
  "backup_message env update w =
     (case backup_try env update w of
        (Inl e, w') \<Rightarrow>
          if is_Exception e
          then (Inr (), w'\<lparr>log := log w' @ [''Error while processing message: '' @ exn_str e]\<rparr>)
          else (Inl e, w')
      | (Inr u, w') \<Rightarrow> (Inr u, w'))"

section \<open>The specification's words\<close>

text \<open>
  The attachment kinds in the priority order the specification lists, each with the
  descriptor the event carries for it (for a photo, the last of the photo sizes), and
  the first of them that is present.
\<close>

definition spec_attachment_kinds :: "TgMessage \<Rightarrow> (string \<times> Attachment option) list" where
  "spec_attachment_kinds msg =
     [(''photo'', if m_photo msg = [] then None else Some (last (m_photo msg))),
      (''video'', m_video msg),
      (''document'', m_document msg),
      (''voice'', m_voice msg),
      (''audio'', m_audio msg),
      (''animation'', m_animation msg),
      (''sticker'', m_sticker msg)]"

definition spec_first_attachment :: "TgMessage \<Rightarrow> (string \<times> Attachment) option" where
  "spec_first_attachment msg =
     (case [(k, a). (k, Some a) \<leftarrow> spec_attachment_kinds msg] of
        [] \<Rightarrow> None
      | x # _ \<Rightarrow> Some x)"

text \<open>
  The specification's \<^verbatim>\<open>"{chat_id}_{message_id}_{file_unique_token}"\<close>; its condition
  that the remote path yields an extension: the path is present, contains a dot, and
  does not end with one; and its condition that an extension is resolvable at all: the
  path yields one, or a fallback is supplied that has a character other than the dot.
\<close>

definition spec_prefix :: "int \<Rightarrow> int \<Rightarrow> File \<Rightarrow> string" where
  "spec_prefix c m tg_file =
     str_int c @ ''_'' @ str_int m @ ''_'' @ file_unique_id tg_file"

definition path_has_extension :: "File \<Rightarrow> bool" where
  "path_has_extension tg_file =
     (case file_path tg_file of
        None \<Rightarrow> False
      | Some p \<Rightarrow> CHR ''.'' \<in> set p \<and> last p \<noteq> CHR ''.'')"

definition spec_resolvable :: "File \<Rightarrow> string option \<Rightarrow> bool" where
  "spec_resolvable tg_file explicit_ext =
     (path_has_extension tg_file \<or>
      (case explicit_ext of
         None \<Rightarrow> False
       | Some x \<Rightarrow> \<exists>c \<in> set x. c \<noteq> CHR ''.''))"

section \<open>An example event\<close>

text \<open>
  An event in a supergroup with a caption, two photo sizes and a document; collaborators
  that resolve the larger photo size and never fail; and an empty store. Its text is
  ASCII.
\<close>

definition example_file :: File where
  "example_file = \<lparr>file_path = Some ''photos/file_1.JPG'', file_unique_id = ''AgAD''\<rparr>"

definition example_env :: env where
  "example_env =
     \<lparr>str_lower = ascii_lower,
      media_path = (\<lambda>fname. ''telegram_media_backup/'' @ fname),
      get_file = (\<lambda>a. if file_id a = ''large'' then Inr example_file
                        else Inl (Exception ''wrong file'')),
      download_to_drive = (\<lambda>f path. None),
      db_flush = (\<lambda>rows. None),
      db_commit = (\<lambda>rows. None)\<rparr>"

definition example_msg :: TgMessage where
  "example_msg =
     \<lparr>m_chat = \<lparr>c_id = 100, c_type = ''supergroup''\<rparr>,
      m_from_user = Some \<lparr>u_id = 5, u_username = None, u_first_name = ''Ada'',
                          u_last_name = Some ''Lovelace''\<rparr>,
      m_text = None,
      m_caption = Some ''hello'',
      m_date = 0,
      m_message_id = 7,
      m_reply_to_message = None,
      m_photo = [\<lparr>file_id = ''small''\<rparr>, \<lparr>file_id = ''large''\<rparr>],
      m_video = None,
      m_document = Some \<lparr>file_id = ''doc''\<rparr>,
      m_voice = None,
      m_audio = None,
      m_animation = None,
      m_sticker = None\<rparr>"

definition example_world :: world where
  "example_world =
     \<lparr>messages = [], media = [], get_file_calls = [], download_calls = [], log = []\<rparr>"

text \<open>
  Variations of it: a transfer that times out, a store whose commit fails, a task that is
  cancelled while the file handle is awaited, and an event with a text and a photo.
\<close>

definition failing_transfer_env :: env where
  "failing_transfer_env =
     example_env\<lparr>download_to_drive := (\<lambda>f path. Some (Exception ''timed out''))\<rparr>"

definition locked_store_env :: env where
  "locked_store_env =
     example_env\<lparr>db_commit := (\<lambda>rows. Some (Exception ''database is locked''))\<rparr>"

definition cancelled_env :: env where
  "cancelled_env =
     example_env\<lparr>get_file := (\<lambda>a. Inl (BaseExceptionOnly ''cancelled''))\<rparr>"

definition text_photo_msg :: TgMessage where
  "text_photo_msg = example_msg\<lparr>m_text := Some ''look'', m_document := None\<rparr>"

section \<open>Facts about the string helpers\<close>

lemma ascii_lower_Nil_iff: "ascii_lower s = [] \<longleftrightarrow> s = []"
  by (simp add: ascii_lower_def)

lemma last_rsplit1:
  assumes "sep \<notin> set b"
  shows "last (rsplit1 sep (a @ sep # b)) = b"
proof -
  have "takeWhile (\<lambda>c. c \<noteq> sep) (rev b @ sep # rev a) = rev b"
    using assms by (induction b rule: rev_induct) auto
  then show ?thesis
    by (simp add: rsplit1_def)
qed

lemma dropWhile_replicate_eq:
  "dropWhile (\<lambda>c. c = ch) (replicate i ch @ ys) = dropWhile (\<lambda>c. c = ch) ys"
  by (induction i) simp_all

lemma dropWhile_replicate_all: "dropWhile (\<lambda>c. c = ch) (replicate j ch) = []"
  by (induction j) simp_all

lemma strip_dots:
  assumes "y = [] \<or> (hd y \<noteq> ch \<and> last y \<noteq> ch)"
  shows "strip ch (replicate i ch @ y @ replicate j ch) = y"
proof (cases "y = []")
  case True
  have "strip ch (replicate i ch @ [] @ replicate j ch) = []"
    by (simp only: strip_def append_Nil dropWhile_replicate_eq dropWhile_replicate_all
        rev.simps dropWhile.simps)
  with True show ?thesis by (simp only:)
next
  case False
  with assms have h: "hd y \<noteq> ch" and l: "last y \<noteq> ch" by blast+
  from False h have d1: "dropWhile (\<lambda>c. c = ch) (y @ replicate j ch) = y @ replicate j ch"
    by (cases y) simp_all
  from False l have d2: "dropWhile (\<lambda>c. c = ch) (rev y) = rev y"
    by (cases y rule: rev_cases) simp_all
  have r: "rev (y @ replicate j ch) = replicate j ch @ rev y"
    by simp
  have "strip ch (replicate i ch @ y @ replicate j ch)
      = rev (dropWhile (\<lambda>c. c = ch) (rev (y @ replicate j ch)))"
    by (simp only: strip_def dropWhile_replicate_eq d1)
  also have "\<dots> = rev (dropWhile (\<lambda>c. c = ch) (replicate j ch @ rev y))"
    by (simp only: r)
  also have "\<dots> = y"
    by (simp only: dropWhile_replicate_eq d2 rev_rev_ident)
  finally show ?thesis .
qed

lemma last_rsplit1_Nil_iff:
  "sep \<in> set p \<Longrightarrow> last (rsplit1 sep p) = [] \<longleftrightarrow> last p = sep"
proof -
  assume "sep \<in> set p"
  then have ne: "rev p \<noteq> []" by auto
  have "takeWhile (\<lambda>c. c \<noteq> sep) (rev p) = [] \<longleftrightarrow> hd (rev p) = sep"
    using ne by (cases "rev p") auto
  with \<open>sep \<in> set p\<close> ne show ?thesis
    by (simp add: rsplit1_def hd_rev)
qed

lemma strip_Nil: "strip ch [] = []"
  by (simp add: strip_def)

lemma strip_Nil_iff: "strip ch x = [] \<longleftrightarrow> (\<forall>c \<in> set x. c = ch)"
proof
  assume "strip ch x = []"
  then have "dropWhile (\<lambda>c. c = ch) (rev (dropWhile (\<lambda>c. c = ch) x)) = []"
    by (simp only: strip_def rev_is_Nil_conv)
  then have "\<forall>c \<in> set (rev (dropWhile (\<lambda>c. c = ch) x)). c = ch"
    by (simp only: dropWhile_eq_Nil_conv)
  then have all: "\<forall>c \<in> set (dropWhile (\<lambda>c. c = ch) x). c = ch"
    by (simp only: set_rev)
  have "dropWhile (\<lambda>c. c = ch) x = []"
  proof (rule ccontr)
    assume ne: "dropWhile (\<lambda>c. c = ch) x \<noteq> []"
    then have "hd (dropWhile (\<lambda>c. c = ch) x) \<noteq> ch"
      by (rule hd_dropWhile)
    moreover from ne have "hd (dropWhile (\<lambda>c. c = ch) x) \<in> set (dropWhile (\<lambda>c. c = ch) x)"
      by (rule hd_in_set)
    ultimately show False using all by blast
  qed
  then show "\<forall>c \<in> set x. c = ch"
    by (simp only: dropWhile_eq_Nil_conv)
next
  assume "\<forall>c \<in> set x. c = ch"
  then have "dropWhile (\<lambda>c. c = ch) x = []"
    by (simp only: dropWhile_eq_Nil_conv)
  then show "strip ch x = []"
    by (simp only: strip_def rev.simps dropWhile.simps)
qed

section \<open>Facts about the resolved extension\<close>

text \<open>
  The hypothesis \<open>\<And>s. lower s = [] \<longleftrightarrow> s = []\<close> of the facts below is the fact about
  \<^verbatim>\<open>str.lower()\<close> named at the start: only the empty string is lowercased to the empty
  string.
\<close>

lemma path_ext:
  assumes "file_path f = Some (a @ ''.'' @ b)" "CHR ''.'' \<notin> set b"
  shows "file_basename_ext lower f None = Some (lower b)"
  using assms last_rsplit1 [of "CHR ''.''" b a]
  by (simp add: file_basename_ext_def)

lemma ext_fallback_unused:
  "truthy (file_basename_ext lower f None) \<Longrightarrow>
   file_basename_ext lower f e = file_basename_ext lower f None"
  by (auto simp: file_basename_ext_def truthy_def split: option.splits if_splits)

lemma ext_fallback_used:
  "\<not> truthy (file_basename_ext lower f None) \<Longrightarrow> x \<noteq> [] \<Longrightarrow>
   file_basename_ext lower f (Some x) = Some (lower (strip CHR ''.'' x))"
  by (auto simp: file_basename_ext_def truthy_def split: option.splits if_splits)

lemma ext_fallback_empty:
  "file_basename_ext lower f (Some []) = file_basename_ext lower f None"
  by (simp add: file_basename_ext_def)

lemma path_has_extension_iff:
  assumes "\<And>s. lower s = [] \<longleftrightarrow> s = []"
  shows "path_has_extension f \<longleftrightarrow> truthy (file_basename_ext lower f None)"
  by (auto simp: path_has_extension_def file_basename_ext_def truthy_def assms
      last_rsplit1_Nil_iff split: option.splits)

lemma ext_is_lower:
  "file_basename_ext lower f e = Some x \<Longrightarrow> \<exists>s. x = lower s"
  by (auto simp: file_basename_ext_def Let_def split: option.splits if_splits)

lemma ext_truthy_iff:
  assumes low: "\<And>s. lower s = [] \<longleftrightarrow> s = []"
  shows "truthy (file_basename_ext lower f e) \<longleftrightarrow> spec_resolvable f e"
proof (cases "truthy (file_basename_ext lower f None)")
  case True
  then show ?thesis
    using ext_fallback_unused [OF True, of e]
    by (simp add: spec_resolvable_def path_has_extension_iff [OF low])
next
  case False
  show ?thesis
  proof (cases e)
    case None
    with False show ?thesis
      by (simp add: spec_resolvable_def path_has_extension_iff [OF low])
  next
    case (Some x)
    show ?thesis
    proof (cases "x = []")
      case True
      with Some False ext_fallback_empty [of lower f] show ?thesis
        by (simp add: spec_resolvable_def path_has_extension_iff [OF low])
    next
      case ne: False
      from ext_fallback_used [OF False ne] Some False strip_Nil_iff [of "CHR ''.''" x]
      show ?thesis
        by (auto simp: spec_resolvable_def path_has_extension_iff [OF low] truthy_def low)
    qed
  qed
qed

lemma basename_no_ext:
  "\<not> truthy (file_basename_ext lower f e) \<Longrightarrow> file_basename lower c m f e = spec_prefix c m f"
  by (auto simp: file_basename_def spec_prefix_def truthy_def split: option.splits)

lemma basename_ext:
  "file_basename_ext lower f e = Some x \<Longrightarrow> x \<noteq> [] \<Longrightarrow>
   file_basename lower c m f e = spec_prefix c m f @ ''.'' @ x"
  by (simp add: file_basename_def spec_prefix_def)

lemma ext_of_path:
  assumes low: "\<And>s. lower s = [] \<longleftrightarrow> s = []"
    and path: "file_path f = Some (a @ ''.'' @ b)" and nodot: "CHR ''.'' \<notin> set b"
    and ne: "b \<noteq> []"
  shows "file_basename_ext lower f e = Some (lower b)"
proof -
  from path nodot have p: "file_basename_ext lower f None = Some (lower b)"
    by (rule path_ext)
  with ne have "truthy (file_basename_ext lower f None)"
    by (simp add: truthy_def low)
  from ext_fallback_unused [OF this, of e] p show ?thesis
    by simp
qed

lemma ext_of_fallback:
  assumes low: "\<And>s. lower s = [] \<longleftrightarrow> s = []"
    and nopath: "\<not> path_has_extension f"
    and x: "x = replicate i CHR ''.'' @ y @ replicate j CHR ''.''"
    and y: "y = [] \<or> (hd y \<noteq> CHR ''.'' \<and> last y \<noteq> CHR ''.'')"
    and ne: "x \<noteq> []"
  shows "file_basename_ext lower f (Some x) = Some (lower y)"
proof -
  from x y have s: "strip CHR ''.'' x = y"
    by (simp only: strip_dots)
  from nopath have "\<not> truthy (file_basename_ext lower f None)"
    by (simp add: path_has_extension_iff [OF low])
  from ext_fallback_used [OF this ne] s show ?thesis
    by simp
qed

lemma basename_without_path:
  assumes low: "\<And>s. lower s = [] \<longleftrightarrow> s = []"
    and g: "\<not> path_has_extension g"
  shows "file_basename lower c m g e
      = spec_prefix c m g @
          (case e of
             None \<Rightarrow> []
           | Some x \<Rightarrow>
               if strip CHR ''.'' x = [] then [] else ''.'' @ lower (strip CHR ''.'' x))"
proof -
  from g have nt: "\<not> truthy (file_basename_ext lower g None)"
    by (simp add: path_has_extension_iff [OF low])
  show ?thesis
  proof (cases e)
    case None
    with basename_no_ext [OF nt] show ?thesis
      by simp
  next
    case (Some x)
    show ?thesis
    proof (cases "x = []")
      case True
      from nt have "\<not> truthy (file_basename_ext lower g (Some []))"
        by (simp add: ext_fallback_empty)
      from basename_no_ext [OF this] True Some show ?thesis
        by (simp add: strip_Nil)
    next
      case ne: False
      from ext_fallback_used [OF nt ne]
      have ext: "file_basename_ext lower g (Some x) = Some (lower (strip CHR ''.'' x))" .
      show ?thesis
      proof (cases "strip CHR ''.'' x = []")
        case True
        with ext have "\<not> truthy (file_basename_ext lower g (Some x))"
          by (simp add: truthy_def low)
        from basename_no_ext [OF this] True Some show ?thesis
          by simp
      next
        case False
        then have "lower (strip CHR ''.'' x) \<noteq> []"
          by (simp add: low)
        from basename_ext [OF ext this] False Some show ?thesis
          by simp
      qed
    qed
  qed
qed

section \<open>The file name builder\<close>

text \<open>
  Claim C2. For every chat id, message id, file handle and fallback extension, and for
  \<^verbatim>\<open>str.lower()\<close> as \<open>lower\<close>, the name built by \<open>file_basename\<close> starts with
  \<^verbatim>\<open>"{chat_id}_{message_id}_{file_unique_id}"\<close>. When an extension is resolvable, the
  name is that prefix, a dot and a lowercased non-empty text, and so ends with the dot
  and that text; when none is resolvable the name is the prefix alone. The text is
  given in both cases of resolution: for a path \<open>a @ ''.'' @ b\<close> with a non-empty \<open>b\<close>
  free of dots it is \<open>lower b\<close>; for a path that yields no extension and a fallback of
  \<open>i\<close> dots, a non-empty \<open>y\<close> that neither starts nor ends with a dot, and \<open>j\<close> dots, it
  is \<open>lower y\<close>.
\<close>

theorem file_basename_shape:
  assumes low: "\<And>s. lower s = [] \<longleftrightarrow> s = []"
  shows "prefix (spec_prefix c m f) (file_basename lower c m f e) \<and>
   (spec_resolvable f e \<longrightarrow>
      (\<exists>s. s \<noteq> [] \<and>
           file_basename lower c m f e = spec_prefix c m f @ ''.'' @ lower s \<and>
           suffix (''.'' @ lower s) (file_basename lower c m f e))) \<and>
   (\<not> spec_resolvable f e \<longrightarrow> file_basename lower c m f e = spec_prefix c m f) \<and>
   (file_path f = Some (a @ ''.'' @ b) \<and> CHR ''.'' \<notin> set b \<and> b \<noteq> [] \<longrightarrow>
      file_basename lower c m f e = spec_prefix c m f @ ''.'' @ lower b) \<and>
   (\<not> path_has_extension f \<and> e = Some (replicate i CHR ''.'' @ y @ replicate j CHR ''.'') \<and>
    y \<noteq> [] \<and> hd y \<noteq> CHR ''.'' \<and> last y \<noteq> CHR ''.'' \<longrightarrow>
      file_basename lower c m f e = spec_prefix c m f @ ''.'' @ lower y)"
proof (intro conjI impI; (elim conjE)?)
  show "prefix (spec_prefix c m f) (file_basename lower c m f e)"
    by (simp add: file_basename_def spec_prefix_def Let_def)
next
  assume "spec_resolvable f e"
  then have "truthy (file_basename_ext lower f e)"
    by (simp add: ext_truthy_iff [OF low])
  then obtain x where x: "file_basename_ext lower f e = Some x" "x \<noteq> []"
    by (auto simp: truthy_def split: option.splits)
  from ext_is_lower [OF x(1)] obtain s where s: "x = lower s"
    by blast
  with x(2) have "s \<noteq> []"
    by (simp add: low)
  moreover from basename_ext [OF x] s
  have "file_basename lower c m f e = spec_prefix c m f @ ''.'' @ lower s"
    by simp
  ultimately show "\<exists>s. s \<noteq> [] \<and>
      file_basename lower c m f e = spec_prefix c m f @ ''.'' @ lower s \<and>
      suffix (''.'' @ lower s) (file_basename lower c m f e)"
    by (auto simp: suffix_def)
next
  assume "\<not> spec_resolvable f e"
  then have "\<not> truthy (file_basename_ext lower f e)"
    by (simp add: ext_truthy_iff [OF low])
  then show "file_basename lower c m f e = spec_prefix c m f"
    by (rule basename_no_ext)
next
  assume "file_path f = Some (a @ ''.'' @ b)" "CHR ''.'' \<notin> set b" "b \<noteq> []"
  from ext_of_path [OF low this] \<open>b \<noteq> []\<close>
  show "file_basename lower c m f e = spec_prefix c m f @ ''.'' @ lower b"
    by (simp add: basename_ext low)
next
  assume nopath: "\<not> path_has_extension f"
    and e: "e = Some (replicate i CHR ''.'' @ y @ replicate j CHR ''.'')"
    and y: "y \<noteq> []" "hd y \<noteq> CHR ''.''" "last y \<noteq> CHR ''.''"
  from y have "replicate i CHR ''.'' @ y @ replicate j CHR ''.'' \<noteq> []"
    by simp
  from ext_of_fallback [OF low nopath refl _ this] y e
  show "file_basename lower c m f e = spec_prefix c m f @ ''.'' @ lower y"
    by (simp add: basename_ext low)
qed

theorem file_basename_shape_witness:
  "file_basename ascii_lower 100 7
     \<lparr>file_path = Some ''videos/clip.MP4'', file_unique_id = ''ABC''\<rparr> None = ''100_7_ABC.mp4'' \<and>
   file_basename ascii_lower 100 7
     \<lparr>file_path = None, file_unique_id = ''ABC''\<rparr> (Some ''.Bin'') = ''100_7_ABC.bin'' \<and>
   \<not> spec_resolvable \<lparr>file_path = None, file_unique_id = ''ABC''\<rparr> None \<and>
   file_basename ascii_lower 100 7
     \<lparr>file_path = None, file_unique_id = ''ABC''\<rparr> None = ''100_7_ABC''"
  using file_basename_shape [of ascii_lower 100 7
      "\<lparr>file_path = Some ''videos/clip.MP4'', file_unique_id = ''ABC''\<rparr>" None
      "''videos/clip''" "''MP4''" 0 "[]" 0, OF ascii_lower_Nil_iff]
    file_basename_shape [of ascii_lower 100 7
      "\<lparr>file_path = None, file_unique_id = ''ABC''\<rparr>" "Some ''.Bin''"
      "[]" "[]" "Suc 0" "''Bin''" 0, OF ascii_lower_Nil_iff]
    file_basename_shape [of ascii_lower 100 7
      "\<lparr>file_path = None, file_unique_id = ''ABC''\<rparr>" None
      "[]" "[]" 0 "[]" 0, OF ascii_lower_Nil_iff]
  by (simp add: spec_resolvable_def path_has_extension_def spec_prefix_def ascii_lower_def
      ascii_lower_char_def char_of_def bit_0 str_int_def str_nat.simps)

text \<open>
  Claim C3, as amended. When the remote path is present, contains a dot, and the text
  after its last dot is not empty, the resolved extension is that text lowercased and
  the fallback extension plays no part. Whenever the fallback changes the name, the
  path has yielded no extension.
\<close>

theorem path_extension_precedence:
  assumes "\<And>s. lower s = [] \<longleftrightarrow> s = []"
  shows "(file_path f = Some (a @ ''.'' @ b) \<and> CHR ''.'' \<notin> set b \<and> b \<noteq> [] \<longrightarrow>
      file_basename_ext lower f e = Some (lower b) \<and>
      file_basename lower c m f e = spec_prefix c m f @ ''.'' @ lower b) \<and>
   (file_basename lower c m f e \<noteq> file_basename lower c m f None \<longrightarrow>
      \<not> path_has_extension f)"
proof (intro conjI impI; (elim conjE)?)
  assume path: "file_path f = Some (a @ ''.'' @ b)" "CHR ''.'' \<notin> set b" "b \<noteq> []"
  from ext_of_path [OF assms path]
  show ext: "file_basename_ext lower f e = Some (lower b)" .
  from basename_ext [OF ext] path(3)
  show "file_basename lower c m f e = spec_prefix c m f @ ''.'' @ lower b"
    by (simp add: assms)
next
  assume differ: "file_basename lower c m f e \<noteq> file_basename lower c m f None"
  show "\<not> path_has_extension f"
  proof
    assume "path_has_extension f"
    then have "truthy (file_basename_ext lower f None)"
      by (simp add: path_has_extension_iff [OF assms])
    then have "file_basename_ext lower f e = file_basename_ext lower f None"
      by (rule ext_fallback_unused)
    then have "file_basename lower c m f e = file_basename lower c m f None"
      by (simp add: file_basename_def)
    with differ show False by simp
  qed
qed

theorem path_extension_precedence_witness:
  "file_basename ascii_lower 100 7
     \<lparr>file_path = Some ''videos/clip.MP4'', file_unique_id = ''ABC''\<rparr> (Some ''bin'')
     = ''100_7_ABC.mp4''"
  using path_extension_precedence [of ascii_lower
      "\<lparr>file_path = Some ''videos/clip.MP4'', file_unique_id = ''ABC''\<rparr>"
      "''videos/clip''" "''MP4''" "Some ''bin''" 100 7, OF ascii_lower_Nil_iff]
  by (simp add: spec_prefix_def ascii_lower_def ascii_lower_char_def char_of_def bit_0
      str_int_def str_nat.simps)

text \<open>
  Claim C3 as first stated fails for a path that ends with a dot: the path
  \<^verbatim>\<open>"videos/clip."\<close> contains a dot and the text after its last dot is empty, yet with
  the fallback \<^verbatim>\<open>"bin"\<close> the resolved extension is \<^verbatim>\<open>"bin"\<close>, and the name differs
  from the one built without a fallback.
\<close>

theorem path_extension_trailing_dot_counterexample:
  "CHR ''.'' \<in> set ''videos/clip.'' \<and>
   last (rsplit1 CHR ''.'' ''videos/clip.'') = [] \<and>
   file_basename_ext ascii_lower
     \<lparr>file_path = Some ''videos/clip.'', file_unique_id = ''ABC''\<rparr> (Some ''bin'')
     = Some ''bin'' \<and>
   file_basename ascii_lower 100 7
     \<lparr>file_path = Some ''videos/clip.'', file_unique_id = ''ABC''\<rparr> (Some ''bin'')
     = ''100_7_ABC.bin'' \<and>
   file_basename ascii_lower 100 7
     \<lparr>file_path = Some ''videos/clip.'', file_unique_id = ''ABC''\<rparr> None
     = ''100_7_ABC''"
  by (simp add: file_basename_def file_basename_ext_def truthy_def rsplit1_def strip_def
      ascii_lower_def ascii_lower_char_def char_of_def bit_0 str_int_def str_nat.simps)

text \<open>
  Claim C6, as amended. When the path yields no extension and a non-empty fallback is
  supplied, the resolved extension is the fallback with the dots at both of its ends
  removed, lowercased; what lies between those dots, inner dots included, is kept. The
  fallback is written here as \<open>i\<close> dots, a text \<open>y\<close> that neither starts nor ends with a
  dot, and \<open>j\<close> dots.
\<close>

theorem fallback_extension_normalized:
  assumes "\<And>s. lower s = [] \<longleftrightarrow> s = []"
    and "\<not> path_has_extension f"
    and "x = replicate i CHR ''.'' @ y @ replicate j CHR ''.''"
    and "y = [] \<or> (hd y \<noteq> CHR ''.'' \<and> last y \<noteq> CHR ''.'')"
    and "x \<noteq> []"
  shows "file_basename_ext lower f (Some x) = Some (lower y) \<and>
         file_basename lower c m f (Some x)
           = spec_prefix c m f @ (if y = [] then [] else ''.'' @ lower y)"
proof -
  from ext_of_fallback [OF assms]
  have ext: "file_basename_ext lower f (Some x) = Some (lower y)" .
  show ?thesis
  proof (cases "y = []")
    case True
    with ext have "\<not> truthy (file_basename_ext lower f (Some x))"
      by (simp add: truthy_def assms(1))
    from basename_no_ext [OF this] ext True show ?thesis
      by simp
  next
    case False
    then have "lower y \<noteq> []"
      by (simp add: assms(1))
    from basename_ext [OF ext this] ext False show ?thesis
      by simp
  qed
qed

theorem fallback_extension_normalized_witness:
  "file_basename_ext ascii_lower \<lparr>file_path = None, file_unique_id = ''ABC''\<rparr>
     (Some ''..Tar.GZ.'') = Some ''tar.gz'' \<and>
   file_basename ascii_lower 100 7 \<lparr>file_path = None, file_unique_id = ''ABC''\<rparr>
     (Some ''..Tar.GZ.'') = ''100_7_ABC.tar.gz''"
  using fallback_extension_normalized [of ascii_lower
      "\<lparr>file_path = None, file_unique_id = ''ABC''\<rparr>"
      "''..Tar.GZ.''" "Suc (Suc 0)" "''Tar.GZ''" "Suc 0" 100 7, OF ascii_lower_Nil_iff]
  by (simp add: path_has_extension_def spec_prefix_def ascii_lower_def ascii_lower_char_def
      char_of_def bit_0 str_int_def str_nat.simps)

text \<open>
  Claim C6 as first stated fails for a fallback that ends with a dot: stripping the
  leading dots of \<^verbatim>\<open>".Tar."\<close> and lowercasing would give \<^verbatim>\<open>"tar."\<close>, while the
  resolved extension is \<^verbatim>\<open>"tar"\<close>.
\<close>

theorem fallback_trailing_dot_counterexample:
  "file_basename_ext ascii_lower \<lparr>file_path = None, file_unique_id = ''ABC''\<rparr> (Some ''.Tar.'')
     = Some ''tar'' \<and>
   file_basename_ext ascii_lower \<lparr>file_path = None, file_unique_id = ''ABC''\<rparr> (Some ''.Tar.'')
     \<noteq> Some ''tar.'' \<and>
   file_basename ascii_lower 100 7 \<lparr>file_path = None, file_unique_id = ''ABC''\<rparr> (Some ''.Tar.'')
     = ''100_7_ABC.tar''"
  by (simp add: file_basename_def file_basename_ext_def truthy_def strip_def ascii_lower_def
      ascii_lower_char_def char_of_def bit_0 str_int_def str_nat.simps)

text \<open>
  Claim C10. When the remote path ends with a dot, no empty extension is appended:
  without a fallback the name is the prefix alone; with a fallback of \<open>i\<close> dots, a text
  \<open>y\<close> that neither starts nor ends with a dot, and \<open>j\<close> dots, it is the prefix and, if
  \<open>y\<close> is not empty, a dot and \<open>y\<close> lowercased. The name is the one built for a handle
  without a path, and it is never the prefix followed by a lone dot.
\<close>

theorem trailing_dot_path_falls_through:
  assumes low: "\<And>s. lower s = [] \<longleftrightarrow> s = []"
    and path: "file_path f = Some (a @ ''.'')"
  shows "file_basename lower c m f None = spec_prefix c m f \<and>
         (x = replicate i CHR ''.'' @ y @ replicate j CHR ''.'' \<and>
          (y = [] \<or> (hd y \<noteq> CHR ''.'' \<and> last y \<noteq> CHR ''.'')) \<longrightarrow>
            file_basename lower c m f (Some x)
              = spec_prefix c m f @ (if y = [] then [] else ''.'' @ lower y)) \<and>
         file_basename lower c m f e = file_basename lower c m (f\<lparr>file_path := None\<rparr>) e \<and>
         file_basename lower c m f e \<noteq> spec_prefix c m f @ ''.''"
proof -
  from path have nopath: "\<not> path_has_extension f"
    by (simp add: path_has_extension_def)
  have nopath': "\<not> path_has_extension (f\<lparr>file_path := None\<rparr>)"
    by (simp add: path_has_extension_def)
  have pre: "spec_prefix c m (f\<lparr>file_path := None\<rparr>) = spec_prefix c m f"
    by (simp add: spec_prefix_def)
  have 1: "file_basename lower c m f None = spec_prefix c m f"
    using basename_without_path [OF low nopath, of c m None] by simp
  have 2: "file_basename lower c m f (Some x)
      = spec_prefix c m f @ (if y = [] then [] else ''.'' @ lower y)"
    if x: "x = replicate i CHR ''.'' @ y @ replicate j CHR ''.''"
      and y: "y = [] \<or> (hd y \<noteq> CHR ''.'' \<and> last y \<noteq> CHR ''.'')"
  proof -
    from x y have "strip CHR ''.'' x = y"
      by (simp only: strip_dots)
    with basename_without_path [OF low nopath, of c m "Some x"] show ?thesis
      by simp
  qed
  have 3: "file_basename lower c m f e = file_basename lower c m (f\<lparr>file_path := None\<rparr>) e"
    using basename_without_path [OF low nopath, of c m e]
      basename_without_path [OF low nopath', of c m e] pre
    by simp
  have 4: "file_basename lower c m f e \<noteq> spec_prefix c m f @ ''.''"
    using basename_without_path [OF low nopath, of c m e]
    by (simp add: low split: option.splits)
  from 1 2 3 4 show ?thesis by blast
qed

theorem trailing_dot_path_falls_through_witness:
  "file_basename ascii_lower 100 7
     \<lparr>file_path = Some ''videos/clip.'', file_unique_id = ''ABC''\<rparr> None = ''100_7_ABC'' \<and>
   file_basename ascii_lower 100 7
     \<lparr>file_path = Some ''videos/clip.'', file_unique_id = ''ABC''\<rparr> (Some ''.Bin'')
     = ''100_7_ABC.bin''"
  using trailing_dot_path_falls_through [of ascii_lower
      "\<lparr>file_path = Some ''videos/clip.'', file_unique_id = ''ABC''\<rparr>" "''videos/clip''"
      100 7 "''.Bin''" "Suc 0" "''Bin''" 0 None, OF ascii_lower_Nil_iff]
  by (simp add: spec_prefix_def ascii_lower_def ascii_lower_char_def char_of_def bit_0
      str_int_def str_nat.simps)

section \<open>The full name\<close>

text \<open>
  Claim C7. The full name is the non-empty members of first and last name, in that
  order, joined by one space: both present gives \<open>a @ '' '' @ b\<close>, one present gives
  that one, and none present (absent or empty) gives the empty string.
\<close>

theorem safe_full_name_joins:
  "safe_full_name None None = [] \<and>
   (a \<noteq> [] \<and> b \<noteq> [] \<longrightarrow> safe_full_name (Some a) (Some b) = a @ '' '' @ b) \<and>
   (a \<noteq> [] \<longrightarrow> safe_full_name (Some a) None = a \<and> safe_full_name (Some a) (Some []) = a) \<and>
   (b \<noteq> [] \<longrightarrow> safe_full_name None (Some b) = b \<and> safe_full_name (Some []) (Some b) = b) \<and>
   safe_full_name (Some []) None = [] \<and> safe_full_name None (Some []) = [] \<and>
   safe_full_name (Some []) (Some []) = [] \<and>
   safe_full_name first last' = join '' '' [s. Some s \<leftarrow> [first, last'], s \<noteq> []]"
  by (cases first; cases last') (simp_all add: safe_full_name_def truthy_def)

theorem safe_full_name_joins_witness:
  "safe_full_name (Some ''Ada'') None = ''Ada'' \<and>
   safe_full_name None None = [] \<and>
   safe_full_name (Some ''Ada'') (Some ''Lovelace'') = ''Ada Lovelace''"
  using safe_full_name_joins [of "''Ada''" "''Lovelace''" None None]
  by simp

section \<open>Facts about the handler\<close>

text \<open>
  The detection chain takes the first attachment of the priority list, and the
  \<^verbatim>\<open>with\<close> block, unfolded along it, has six ways to end: \<^verbatim>\<open>flush\<close> raises; there
  is no attachment and \<^verbatim>\<open>commit\<close> raises or succeeds; \<^verbatim>\<open>get_file\<close> raises; the
  transfer raises; and, after the transfer, \<^verbatim>\<open>commit\<close> raises or succeeds.
\<close>

lemma media_detection_spec:
  "media_detection env msg w =
     (case spec_first_attachment msg of
        None \<Rightarrow> (Inr (None, None), w)
      | Some (k, a) \<Rightarrow> resolve env a k w)"
  by (simp add: media_detection_def spec_first_attachment_def spec_attachment_kinds_def
      split: option.splits)

lemma spec_first_attachment_kind:
  "spec_first_attachment msg = Some (k, a) \<Longrightarrow> k \<noteq> []"
  by (auto simp: spec_first_attachment_def spec_attachment_kinds_def
      split: option.splits if_splits)

lemma with_session_unfold:
  "with_session env msg w =
     (let db_msg = new_Message msg in
      case db_flush env [MessageRow db_msg] of
        Some e \<Rightarrow> (Inl e, w)
      | None \<Rightarrow>
         (case spec_first_attachment msg of
            None \<Rightarrow>
              (case db_commit env [MessageRow db_msg] of
                 Some e \<Rightarrow> (Inl e, w)
               | None \<Rightarrow> (Inr (), w\<lparr>messages := messages w @ [db_msg]\<rparr>))
          | Some (k, a) \<Rightarrow>
              (case get_file env a of
                 Inl e \<Rightarrow> (Inl e, w\<lparr>get_file_calls := get_file_calls w @ [a]\<rparr>)
               | Inr f \<Rightarrow>
                  (let fname = file_basename (str_lower env) (c_id (m_chat msg)) (m_message_id msg) f None;
                       dest_path = media_path env fname;
                       db_media = \<lparr>media_message_id = m_message_id msg,
                                   media_chat_id = c_id (m_chat msg),
                                   media_type = k,
                                   file_name = fname,
                                   media_file_path = dest_path\<rparr>;
                       w2 = w\<lparr>get_file_calls := get_file_calls w @ [a],
                              download_calls := download_calls w @ [(f, dest_path)]\<rparr>
                   in case download_to_drive env f dest_path of
                        Some e \<Rightarrow> (Inl e, w2)
                      | None \<Rightarrow>
                         (case db_commit env [MessageRow db_msg, MediaRow db_media] of
                            Some e \<Rightarrow> (Inl e, w2)
                          | None \<Rightarrow>
                              (Inr (), w2\<lparr>messages := messages w @ [db_msg],
                                         media := media w @ [db_media]\<rparr>))))))"
proof (cases "spec_first_attachment msg")
  case None
  then show ?thesis
    by (simp add: with_session_def media_detection_spec download_media_def commit_rows_def
        Let_def split: option.splits)
next
  case (Some ka)
  obtain k a where ka: "ka = (k, a)" by (cases ka)
  with Some have "k \<noteq> []" by (simp add: spec_first_attachment_kind)
  with Some ka show ?thesis
    by (simp add: with_session_def media_detection_spec resolve_def download_media_def
        commit_rows_def Let_def split: option.splits sum.splits)
qed

lemma backup_try_Inl:
  assumes "backup_try env update w = (Inl e, w')"
  shows "messages w' = messages w \<and> media w' = media w \<and> log w' = log w"
  using assms
  by (auto simp: backup_try_def with_session_unfold Let_def
      split: option.splits sum.splits prod.splits)

lemma backup_try_raised_by:
  assumes "backup_try env update w = (Inl e, w')"
  shows "(\<exists>rows. db_flush env rows = Some e) \<or> (\<exists>a. get_file env a = Inl e) \<or>
         (\<exists>f path. download_to_drive env f path = Some e) \<or>
         (\<exists>rows. db_commit env rows = Some e)"
  using assms
  by (auto simp: backup_try_def with_session_unfold Let_def
      split: option.splits sum.splits)

lemma spec_first_attachment_photo:
  "m_photo msg \<noteq> [] \<Longrightarrow> spec_first_attachment msg = Some (''photo'', last (m_photo msg))"
  by (simp add: spec_first_attachment_def spec_attachment_kinds_def)

lemma spec_first_attachment_none:
  "spec_first_attachment msg = None \<longleftrightarrow>
     m_photo msg = [] \<and> m_video msg = None \<and> m_document msg = None \<and> m_voice msg = None \<and>
     m_audio msg = None \<and> m_animation msg = None \<and> m_sticker msg = None"
  by (auto simp: spec_first_attachment_def spec_attachment_kinds_def split: option.splits)

lemma backup_try_Inr:
  assumes "effective_message update = Some msg"
    and "backup_try env update w = (Inr u, w')"
  shows "messages w' = messages w @ [new_Message msg] \<and>
         (case spec_first_attachment msg of
            None \<Rightarrow> media w' = media w \<and> get_file_calls w' = get_file_calls w
          | Some (k, a) \<Rightarrow>
              (\<exists>r. media w' = media w @ [r] \<and> media_type r = k) \<and>
              get_file_calls w' = get_file_calls w @ [a])"
  using assms
  by (auto simp: backup_try_def with_session_unfold Let_def
      split: option.splits sum.splits)

text \<open>The example event runs to a commit of both rows; its variations raise.\<close>

lemma example_first:
  "spec_first_attachment example_msg = Some (''photo'', \<lparr>file_id = ''large''\<rparr>)"
  by (simp add: spec_first_attachment_def spec_attachment_kinds_def example_msg_def)

lemma text_photo_first:
  "spec_first_attachment text_photo_msg = Some (''photo'', \<lparr>file_id = ''large''\<rparr>)"
  by (simp add: spec_first_attachment_def spec_attachment_kinds_def example_msg_def
      text_photo_msg_def)

lemma example_basename:
  "file_basename ascii_lower 100 7 example_file None = ''100_7_AgAD.jpg''"
  by (simp add: file_basename_def file_basename_ext_def example_file_def truthy_def rsplit1_def
      ascii_lower_def ascii_lower_char_def char_of_def bit_0 str_int_def str_nat.simps)

lemma example_ids:
  "c_id (m_chat example_msg) = 100" "m_message_id example_msg = 7"
  "c_id (m_chat text_photo_msg) = 100" "m_message_id text_photo_msg = 7"
  by (simp_all add: example_msg_def text_photo_msg_def)

lemma example_try:
  "backup_try example_env \<lparr>effective_message = Some example_msg\<rparr> example_world =
     (Inr (),
      \<lparr>messages = [new_Message example_msg],
       media = [\<lparr>media_message_id = 7, media_chat_id = 100, media_type = ''photo'',
                 file_name = ''100_7_AgAD.jpg'',
                 media_file_path = ''telegram_media_backup/100_7_AgAD.jpg''\<rparr>],
       get_file_calls = [\<lparr>file_id = ''large''\<rparr>],
       download_calls = [(example_file, ''telegram_media_backup/100_7_AgAD.jpg'')],
       log = []\<rparr>)"
  by (simp add: backup_try_def with_session_unfold example_first example_ids
      example_basename example_env_def example_world_def Let_def)

lemma example_run:
  "backup_message example_env \<lparr>effective_message = Some example_msg\<rparr> example_world =
     backup_try example_env \<lparr>effective_message = Some example_msg\<rparr> example_world"
  by (simp add: backup_message_def example_try)

lemma failing_transfer_try:
  "backup_try failing_transfer_env \<lparr>effective_message = Some text_photo_msg\<rparr> example_world =
     (Inl (Exception ''timed out''),
      example_world\<lparr>get_file_calls := [\<lparr>file_id = ''large''\<rparr>],
        download_calls := [(example_file, ''telegram_media_backup/100_7_AgAD.jpg'')]\<rparr>)"
  by (simp add: backup_try_def with_session_unfold text_photo_first example_ids
      example_basename failing_transfer_env_def example_env_def example_world_def Let_def)

lemma locked_store_try:
  "backup_try locked_store_env \<lparr>effective_message = Some example_msg\<rparr> example_world =
     (Inl (Exception ''database is locked''),
      example_world\<lparr>get_file_calls := [\<lparr>file_id = ''large''\<rparr>],
        download_calls := [(example_file, ''telegram_media_backup/100_7_AgAD.jpg'')]\<rparr>)"
  by (simp add: backup_try_def with_session_unfold example_first example_ids
      example_basename locked_store_env_def example_env_def example_world_def Let_def)

lemma cancelled_try:
  "backup_try cancelled_env \<lparr>effective_message = Some example_msg\<rparr> example_world =
     (Inl (BaseExceptionOnly ''cancelled''),
      example_world\<lparr>get_file_calls := [\<lparr>file_id = ''large''\<rparr>]\<rparr>)"
  by (simp add: backup_try_def with_session_unfold example_first
      cancelled_env_def example_env_def example_world_def Let_def)

section \<open>The event handler\<close>

text \<open>
  Claim C1. When the event carries an attachment and its download fails, that is
  \<^verbatim>\<open>get_file\<close> raises or \<^verbatim>\<open>download_to_drive\<close> raises, whatever is raised, the
  committed rows of both tables are what they were: neither the staged \<^verbatim>\<open>Message\<close>
  row nor a \<^verbatim>\<open>Media\<close> row is committed. If the flush before it succeeded, the
  exception of the download is logged and the handler returns when it is an instance of
  \<^verbatim>\<open>Exception\<close>, and leaves the handler otherwise; if the flush raised, its exception
  decides in the same way.
\<close>

theorem failed_download_commits_nothing:
  assumes "effective_message update = Some msg"
    and "spec_first_attachment msg = Some (k, a)"
    and "get_file env a = Inl e \<or>
         (\<exists>f. get_file env a = Inr f \<and>
              download_to_drive env f
                (media_path env
                   (file_basename (str_lower env) (c_id (m_chat msg)) (m_message_id msg) f None))
                = Some e)"
  shows "messages (snd (backup_message env update w)) = messages w \<and>
         media (snd (backup_message env update w)) = media w \<and>
         (db_flush env [MessageRow (new_Message msg)] = None \<and> is_Exception e \<longrightarrow>
            fst (backup_message env update w) = Inr () \<and>
            log (snd (backup_message env update w))
              = log w @ [''Error while processing message: '' @ exn_str e]) \<and>
         (db_flush env [MessageRow (new_Message msg)] = None \<and> \<not> is_Exception e \<longrightarrow>
            fst (backup_message env update w) = Inl e) \<and>
         (\<forall>e'. db_flush env [MessageRow (new_Message msg)] = Some e' \<longrightarrow>
            fst (backup_message env update w) = (if is_Exception e' then Inr () else Inl e'))"
  using assms
  by (auto simp: backup_message_def backup_try_def with_session_unfold Let_def
      split: option.splits sum.splits)

theorem failed_download_commits_nothing_witness:
  "m_text text_photo_msg = Some ''look'' \<and> m_photo text_photo_msg \<noteq> [] \<and>
   messages (snd (backup_message failing_transfer_env
      \<lparr>effective_message = Some text_photo_msg\<rparr> example_world)) = [] \<and>
   media (snd (backup_message failing_transfer_env
      \<lparr>effective_message = Some text_photo_msg\<rparr> example_world)) = [] \<and>
   log (snd (backup_message failing_transfer_env
      \<lparr>effective_message = Some text_photo_msg\<rparr> example_world))
     = [''Error while processing message: timed out'']"
proof -
  have t: "m_text text_photo_msg = Some ''look''" "m_photo text_photo_msg \<noteq> []"
    by (simp_all add: text_photo_msg_def example_msg_def)
  from failed_download_commits_nothing
      [of "\<lparr>effective_message = Some text_photo_msg\<rparr>" text_photo_msg "''photo''"
          "\<lparr>file_id = ''large''\<rparr>" failing_transfer_env "Exception ''timed out''"
          example_world, OF _ text_photo_first] t
  show ?thesis
    by (simp add: failing_transfer_env_def example_env_def example_world_def)
qed

text \<open>
  Claim C4, as amended. Every instance of \<^verbatim>\<open>Exception\<close> raised anywhere in the body
  of the \<^verbatim>\<open>try\<close> is caught: the handler returns normally, in the state the exception
  left, with one more log entry that carries the exception's text and with the committed
  rows unchanged. So when the collaborators raise nothing but instances of
  \<^verbatim>\<open>Exception\<close> the handler returns normally, and what leaves the handler is never an
  instance of \<^verbatim>\<open>Exception\<close>.
\<close>

theorem handler_catches_Exception:
  "((\<forall>rows e. db_flush env rows = Some e \<longrightarrow> is_Exception e) \<and>
    (\<forall>a e. get_file env a = Inl e \<longrightarrow> is_Exception e) \<and>
    (\<forall>f path e. download_to_drive env f path = Some e \<longrightarrow> is_Exception e) \<and>
    (\<forall>rows e. db_commit env rows = Some e \<longrightarrow> is_Exception e) \<longrightarrow>
      fst (backup_message env update w) = Inr ()) \<and>
   (\<forall>e w'. backup_try env update w = (Inl e, w') \<and> is_Exception e \<longrightarrow>
      backup_message env update w
        = (Inr (), w'\<lparr>log := log w @ [''Error while processing message: '' @ exn_str e]\<rparr>) \<and>
      messages w' = messages w \<and> media w' = media w) \<and>
   (\<forall>e. fst (backup_message env update w) = Inl e \<longrightarrow>
      \<not> is_Exception e \<and> fst (backup_try env update w) = Inl e)"
proof (intro conjI allI impI; (elim conjE)?)
  assume fl: "\<forall>rows e. db_flush env rows = Some e \<longrightarrow> is_Exception e"
    and gf: "\<forall>a e. get_file env a = Inl e \<longrightarrow> is_Exception e"
    and dl: "\<forall>f path e. download_to_drive env f path = Some e \<longrightarrow> is_Exception e"
    and cm: "\<forall>rows e. db_commit env rows = Some e \<longrightarrow> is_Exception e"
  show "fst (backup_message env update w) = Inr ()"
  proof (cases "backup_try env update w")
    case (Pair r w')
    show ?thesis
    proof (cases r)
      case (Inl e)
      with Pair backup_try_raised_by [of env update w e w'] fl gf dl cm
      have "is_Exception e" by blast
      with Pair Inl show ?thesis
        by (simp add: backup_message_def)
    next
      case (Inr u)
      with Pair show ?thesis
        by (simp add: backup_message_def)
    qed
  qed
next
  fix e w' assume run: "backup_try env update w = (Inl e, w')" and ex: "is_Exception e"
  from backup_try_Inl [OF run] run ex
  show "backup_message env update w
        = (Inr (), w'\<lparr>log := log w @ [''Error while processing message: '' @ exn_str e]\<rparr>)"
    by (simp add: backup_message_def)
  from backup_try_Inl [OF run] show "messages w' = messages w" "media w' = media w"
    by simp_all
next
  fix e assume raised: "fst (backup_message env update w) = Inl e"
  then show "\<not> is_Exception e"
    by (auto simp: backup_message_def split: prod.splits sum.splits if_splits)
  from raised show "fst (backup_try env update w) = Inl e"
    by (auto simp: backup_message_def split: prod.splits sum.splits if_splits)
qed

theorem handler_catches_Exception_witness:
  "is_Exception (Exception ''database is locked'') \<and>
   backup_try locked_store_env \<lparr>effective_message = Some example_msg\<rparr> example_world
     = (Inl (Exception ''database is locked''),
        example_world\<lparr>get_file_calls := [\<lparr>file_id = ''large''\<rparr>],
          download_calls := [(example_file, ''telegram_media_backup/100_7_AgAD.jpg'')]\<rparr>) \<and>
   backup_message locked_store_env \<lparr>effective_message = Some example_msg\<rparr> example_world
     = (Inr (),
        example_world\<lparr>get_file_calls := [\<lparr>file_id = ''large''\<rparr>],
          download_calls := [(example_file, ''telegram_media_backup/100_7_AgAD.jpg'')],
          log := [''Error while processing message: database is locked'']\<rparr>)"
  using handler_catches_Exception
    [of locked_store_env "\<lparr>effective_message = Some example_msg\<rparr>" example_world]
    locked_store_try
  by (simp add: example_world_def)

text \<open>
  Claim C4 as first stated, for every exception, fails: when the task is cancelled while
  the file handle is awaited, \<^verbatim>\<open>asyncio.CancelledError\<close>, which is not an instance of
  \<^verbatim>\<open>Exception\<close>, leaves the handler, and nothing is logged.
\<close>

theorem handler_cancelled_counterexample:
  "backup_message cancelled_env \<lparr>effective_message = Some example_msg\<rparr> example_world
     = (Inl (BaseExceptionOnly ''cancelled''),
        example_world\<lparr>get_file_calls := [\<lparr>file_id = ''large''\<rparr>]\<rparr>)"
  by (simp add: backup_message_def cancelled_try)

text \<open>
  Claim C5. Detection resolves the first attachment in the order photo, video, document,
  voice, audio, animation, sticker, and no other. A run that commits adds exactly one
  \<^verbatim>\<open>Media\<close> row, of that kind, after one \<^verbatim>\<open>get_file\<close> request, and adds no row and
  makes no request when the event has none of the kinds. In particular an event with a
  photo, whatever else it carries, gets one row of type \<^verbatim>\<open>"photo"\<close>.
\<close>

theorem attachment_priority:
  assumes "effective_message update = Some msg"
  shows "media_detection env msg w =
           (case spec_first_attachment msg of
              None \<Rightarrow> (Inr (None, None), w)
            | Some (k, a) \<Rightarrow> resolve env a k w) \<and>
         (\<forall>w'. backup_try env update w = (Inr (), w') \<longrightarrow>
            (case spec_first_attachment msg of
               None \<Rightarrow> media w' = media w \<and> get_file_calls w' = get_file_calls w
             | Some (k, a) \<Rightarrow>
                 (\<exists>r. media w' = media w @ [r] \<and> media_type r = k) \<and>
                 get_file_calls w' = get_file_calls w @ [a]) \<and>
            (m_photo msg \<noteq> [] \<longrightarrow> (\<exists>r. media w' = media w @ [r] \<and> media_type r = ''photo'')) \<and>
            (m_photo msg = [] \<and> m_video msg = None \<and> m_document msg = None \<and>
             m_voice msg = None \<and> m_audio msg = None \<and> m_animation msg = None \<and>
             m_sticker msg = None \<longrightarrow> media w' = media w))"
proof (intro conjI allI impI)
  show "media_detection env msg w =
           (case spec_first_attachment msg of
              None \<Rightarrow> (Inr (None, None), w)
            | Some (k, a) \<Rightarrow> resolve env a k w)"
    by (rule media_detection_spec)
next
  fix w' assume run: "backup_try env update w = (Inr (), w')"
  from backup_try_Inr [OF assms run]
  show "case spec_first_attachment msg of
          None \<Rightarrow> media w' = media w \<and> get_file_calls w' = get_file_calls w
        | Some (k, a) \<Rightarrow>
            (\<exists>r. media w' = media w @ [r] \<and> media_type r = k) \<and>
            get_file_calls w' = get_file_calls w @ [a]"
    by simp
next
  fix w' assume run: "backup_try env update w = (Inr (), w')" and photo: "m_photo msg \<noteq> []"
  from backup_try_Inr [OF assms run] spec_first_attachment_photo [OF photo]
  show "\<exists>r. media w' = media w @ [r] \<and> media_type r = ''photo''"
    by simp
next
  fix w' assume run: "backup_try env update w = (Inr (), w')"
    and none: "m_photo msg = [] \<and> m_video msg = None \<and> m_document msg = None \<and>
             m_voice msg = None \<and> m_audio msg = None \<and> m_animation msg = None \<and>
             m_sticker msg = None"
  from none have "spec_first_attachment msg = None"
    by (simp add: spec_first_attachment_none)
  with backup_try_Inr [OF assms run] show "media w' = media w"
    by simp
qed

theorem attachment_priority_witness:
  "m_photo example_msg \<noteq> [] \<and> m_document example_msg \<noteq> None \<and>
   (\<exists>r. media (snd (backup_message example_env \<lparr>effective_message = Some example_msg\<rparr>
                     example_world)) = [r] \<and> media_type r = ''photo'')"
proof -
  have run: "backup_try example_env \<lparr>effective_message = Some example_msg\<rparr> example_world
      = (Inr (), snd (backup_message example_env \<lparr>effective_message = Some example_msg\<rparr>
                     example_world))"
    by (simp add: example_run example_try)
  have w: "media example_world = []"
    by (simp add: example_world_def)
  have p: "m_photo example_msg \<noteq> []" "m_document example_msg \<noteq> None"
    by (simp_all add: example_msg_def)
  from attachment_priority [of "\<lparr>effective_message = Some example_msg\<rparr>" example_msg
      example_env example_world] run p w
  show ?thesis
    by simp
qed

text \<open>
  Claim C8. For an event with a photo, once the message is staged, the one file the
  handler asks the platform for is the last element of the photo sizes, and the transfer
  it requests is of the file handle resolved for that element; when the resolution
  fails no transfer is requested.
\<close>

theorem photo_last_variant:
  assumes "effective_message update = Some msg"
    and "m_photo msg \<noteq> []"
    and "db_flush env [MessageRow (new_Message msg)] = None"
  shows "get_file_calls (snd (backup_message env update w))
           = get_file_calls w @ [last (m_photo msg)] \<and>
         (\<forall>f. get_file env (last (m_photo msg)) = Inr f \<longrightarrow>
            download_calls (snd (backup_message env update w))
              = download_calls w @
                  [(f, media_path env
                         (file_basename (str_lower env) (c_id (m_chat msg)) (m_message_id msg)
                            f None))]) \<and>
         (\<forall>e. get_file env (last (m_photo msg)) = Inl e \<longrightarrow>
            download_calls (snd (backup_message env update w)) = download_calls w)"
  using assms spec_first_attachment_photo [OF assms(2)]
  by (auto simp: backup_message_def backup_try_def with_session_unfold Let_def
      split: option.splits sum.splits)

theorem photo_last_variant_witness:
  "last (m_photo example_msg) = \<lparr>file_id = ''large''\<rparr> \<and>
   get_file_calls (snd (backup_message example_env \<lparr>effective_message = Some example_msg\<rparr>
       example_world)) = [\<lparr>file_id = ''large''\<rparr>] \<and>
   download_calls (snd (backup_message example_env \<lparr>effective_message = Some example_msg\<rparr>
       example_world)) = [(example_file, ''telegram_media_backup/100_7_AgAD.jpg'')]"
proof -
  have l: "last (m_photo example_msg) = \<lparr>file_id = ''large''\<rparr>" "m_photo example_msg \<noteq> []"
    by (simp_all add: example_msg_def)
  have g: "get_file example_env \<lparr>file_id = ''large''\<rparr> = Inr example_file"
    "db_flush example_env [MessageRow (new_Message example_msg)] = None"
    "media_path example_env ''100_7_AgAD.jpg'' = ''telegram_media_backup/100_7_AgAD.jpg''"
    "str_lower example_env = ascii_lower"
    by (simp_all add: example_env_def)
  from photo_last_variant [of "\<lparr>effective_message = Some example_msg\<rparr>" example_msg
      example_env example_world] l g example_ids example_basename
  show ?thesis
    by (simp add: example_world_def)
qed

text \<open>
  Claim C9. A run that raises persists no \<^verbatim>\<open>Message\<close> record. A run that commits
  persists exactly one, and its text is the message text when that is present (a
  non-empty string), and the caption, which may be \<^verbatim>\<open>None\<close>, when the message text is
  \<^verbatim>\<open>None\<close> or empty.
\<close>

theorem stored_text_or_caption:
  assumes "effective_message update = Some msg"
  shows "(\<forall>e w'. backup_try env update w = (Inl e, w') \<longrightarrow> messages w' = messages w) \<and>
         (\<forall>w'. backup_try env update w = (Inr (), w') \<longrightarrow>
            (\<exists>r. messages w' = messages w @ [r] \<and>
               (\<forall>t. m_text msg = Some t \<and> t \<noteq> [] \<longrightarrow> text_col r = Some t) \<and>
               (m_text msg = None \<or> m_text msg = Some [] \<longrightarrow> text_col r = m_caption msg)))"
proof (intro conjI allI impI)
  fix e w' assume "backup_try env update w = (Inl e, w')"
  then show "messages w' = messages w"
    by (simp add: backup_try_Inl)
next
  fix w' assume run: "backup_try env update w = (Inr (), w')"
  from backup_try_Inr [OF assms run]
  have m: "messages w' = messages w @ [new_Message msg]"
    by simp
  have "(\<forall>t. m_text msg = Some t \<and> t \<noteq> [] \<longrightarrow> text_col (new_Message msg) = Some t) \<and>
        (m_text msg = None \<or> m_text msg = Some [] \<longrightarrow>
           text_col (new_Message msg) = m_caption msg)"
    by (auto simp: new_Message_def truthy_def Let_def)
  with m show "\<exists>r. messages w' = messages w @ [r] \<and>
               (\<forall>t. m_text msg = Some t \<and> t \<noteq> [] \<longrightarrow> text_col r = Some t) \<and>
               (m_text msg = None \<or> m_text msg = Some [] \<longrightarrow> text_col r = m_caption msg)"
    by blast
qed

theorem stored_text_or_caption_witness:
  "m_text example_msg = None \<and> m_caption example_msg = Some ''hello'' \<and>
   (\<exists>r. messages (snd (backup_message example_env \<lparr>effective_message = Some example_msg\<rparr>
                     example_world)) = [r] \<and> text_col r = Some ''hello'')"
proof -
  have run: "backup_try example_env \<lparr>effective_message = Some example_msg\<rparr> example_world
      = (Inr (), snd (backup_message example_env \<lparr>effective_message = Some example_msg\<rparr>
                     example_world))"
    by (simp add: example_run example_try)
  have t: "m_text example_msg = None" "m_caption example_msg = Some ''hello''"
    by (simp_all add: example_msg_def)
  have w: "messages example_world = []"
    by (simp add: example_world_def)
  from stored_text_or_caption [of "\<lparr>effective_message = Some example_msg\<rparr>" example_msg
      example_env example_world] run t w
  show ?thesis
    by simp
qed

end
